theory Spec2Isabelle
  imports
    Complex_Main
    "HOL-Library.AList"
    "HOL-Library.Char_ord"
    "HOL-Library.List_Lexorder"
    "HOL-Library.Sublist"
begin

section \<open>Data model\<close>

text \<open>
  Python strings are kept as \<^typ>\<open>string\<close>, read as the UTF-8 bytes of the text (the
  catalog files are opened with \<^verbatim>\<open>encoding="utf-8"\<close>). Equality, concatenation,
  \<^verbatim>\<open>startswith\<close> and the lexicographic order of Python strings (by code point)
  agree with the same operations on the UTF-8 bytes, and the byte order of
  \<^typ>\<open>char\<close> with the lexicographic order of lists is that order.

  A value stored under a key of a catalog is a YAML scalar: a string, or null for an
  entry written with no value. Catalog keys are strings.
\<close>

datatype pyval = PNone | PStr string

type_synonym translations_dict = "(string \<times> pyval) list"

text \<open>
  The \<^verbatim>\<open>translations\<close> entry of a document: the key may be absent, hold null, or
  hold a mapping. A Python dict keeps insertion order, so the mapping is an association
  list.
\<close>

datatype tfield = TAbsent | TNull | TDict translations_dict

text \<open>
  A top-level mapping: the \<^verbatim>\<open>locale\<close> entry (\<open>None\<close> when the key is absent), the
  \<^verbatim>\<open>translations\<close> entry, and whatever other top-level entries the file has.
\<close>

record catalog =
  locale_entry :: "pyval option"
  translations_entry :: tfield
  others :: "(string \<times> pyval) list"

text \<open>What the YAML parser returns for a file that parses.\<close>

datatype document = Scalar pyval | Sequence "pyval list" | Mapping catalog

text \<open>
  A file of the translation directory, as the YAML library sees its text: either the
  parser rejects it (it raises), or it yields a document. The empty file yields
  \<open>Scalar PNone\<close>.
\<close>

datatype yaml_file = Unparseable | Parsed document

datatype error = YAMLError | AttributeError

text \<open>
  A translation directory: the entries that \<^verbatim>\<open>glob("*.yml")\<close> yields, file name
  and content, in the order of the listing.
\<close>

type_synonym directory = "(string \<times> yaml_file) list"

text \<open>
  What a run leaves behind: the directory afterwards, the calls of
  \<^verbatim>\<open>save_yaml_file(yaml_path, data)\<close> in their order (file name and the document handed
  over), and the value returned or the exception raised.
\<close>

record 'r outcome =
  dir_after :: directory
  saved :: "(string \<times> catalog) list"
  returned :: "error + 'r"

section \<open>Python primitives\<close>

text \<open>Truth value of a Python object in a boolean context.\<close>

fun truthy :: "pyval \<Rightarrow> bool" where
  "truthy PNone = False"
| "truthy (PStr s) = (s \<noteq> [])"

fun truthy_doc :: "document \<Rightarrow> bool" where
  "truthy_doc (Scalar v) = truthy v"
| "truthy_doc (Sequence xs) = (xs \<noteq> [])"
| "truthy_doc (Mapping c) = (\<not> (locale_entry c = None \<and> translations_entry c = TAbsent \<and> others c = []))"

text \<open>\<^verbatim>\<open>str(value)\<close>\<close>

fun py_str :: "pyval \<Rightarrow> string" where
  "py_str PNone = ''None''"
| "py_str (PStr s) = s"

text \<open>
  \<^verbatim>\<open>str.strip()\<close> removes the white-space code points at both ends. The text is split
  into the byte groups of its code points (a byte followed by its continuation bytes
  \<open>0x80..0xBF\<close>), and a group is white space when it is the encoding of one of Python's
  white-space code points.
\<close>

definition is_cont :: "char \<Rightarrow> bool" where
  "is_cont c = (0x80 \<le> (of_char c :: nat) \<and> (of_char c :: nat) \<le> 0xBF)"

function utf8_chars :: "string \<Rightarrow> string list" where
  "utf8_chars [] = []"
| "utf8_chars (c # cs) = (c # takeWhile is_cont cs) # utf8_chars (dropWhile is_cont cs)"
  by pat_completeness auto
termination
  by (relation "measure length") (auto simp: le_imp_less_Suc length_dropWhile_le)

definition py_isspace :: "string \<Rightarrow> bool" where
  "py_isspace g =
    (case map of_char g :: nat list of
       [a] \<Rightarrow> (0x09 \<le> a \<and> a \<le> 0x0D) \<or> (0x1C \<le> a \<and> a \<le> 0x20)
     | [a, b] \<Rightarrow> a = 0xC2 \<and> (b = 0x85 \<or> b = 0xA0)
     | [a, b, c] \<Rightarrow>
         (a = 0xE1 \<and> b = 0x9A \<and> c = 0x80) \<or>
         (a = 0xE2 \<and> b = 0x80 \<and> ((0x80 \<le> c \<and> c \<le> 0x8A) \<or> c = 0xA8 \<or> c = 0xA9 \<or> c = 0xAF)) \<or>
         (a = 0xE2 \<and> b = 0x81 \<and> c = 0x9F) \<or>
         (a = 0xE3 \<and> b = 0x80 \<and> c = 0x80)
     | _ \<Rightarrow> False)"

definition py_strip :: "string \<Rightarrow> string" where
  "py_strip s = concat (rev (dropWhile py_isspace (rev (dropWhile py_isspace (utf8_chars s)))))"

text \<open>
  \<^verbatim>\<open>PurePath.stem\<close>: the name without its last suffix; a dot at the start or at the
  end of the name does not begin a suffix.
\<close>

definition stem :: "string \<Rightarrow> string" where
  "stem name =
    (if CHR ''.'' \<in> set name
     then (let i = length name - 1 - length (takeWhile (\<lambda>c. c \<noteq> CHR ''.'') (rev name))
           in if 0 < i \<and> i < length name - 1 then take i name else name)
     else name)"

section \<open>yaml\_manager\<close>

record MergeResult =
  keys_added :: int
  files_modified :: int
  keys_per_file :: "(string \<times> int) list"

definition empty_catalog :: catalog where
  "empty_catalog = \<lparr>locale_entry = Some (PStr ''''), translations_entry = TDict [], others = []\<rparr>"

text \<open>
  \<^verbatim>\<open>load_yaml_file\<close>: the parser's exception is not caught; a falsy document is
  replaced by the default mapping.
\<close>

definition load_yaml_file :: "yaml_file \<Rightarrow> error + document" where
  "load_yaml_file f =
    (case f of
       Unparseable \<Rightarrow> Inl YAMLError
     | Parsed data \<Rightarrow> Inr (if truthy_doc data then data else Mapping empty_catalog))"

text \<open>\<^verbatim>\<open>data.get("locale", yaml_path.stem)\<close>\<close>

definition get_locale :: "catalog \<Rightarrow> string \<Rightarrow> pyval" where
  "get_locale data name = (case locale_entry data of None \<Rightarrow> PStr (stem name) | Some v \<Rightarrow> v)"

text \<open>
  \<^verbatim>\<open>data.get("translations", {})\<close> followed by the replacement of null by an empty
  dict, or by the test \<^verbatim>\<open>if not translations\<close>: in both uses an absent, null or
  empty entry behaves as the empty dict.
\<close>

definition get_translations :: "catalog \<Rightarrow> translations_dict" where
  "get_translations data = (case translations_entry data of TDict t \<Rightarrow> t | _ \<Rightarrow> [])"

text \<open>
  The inner loop of \<^verbatim>\<open>merge_new_keys\<close>, over the new keys in the order in which the
  set is iterated; \<^verbatim>\<open>translations[key] = v\<close> is \<^const>\<open>AList.update\<close>.
\<close>

fun add_new_keys :: "pyval \<Rightarrow> string list \<Rightarrow> translations_dict \<Rightarrow> int \<Rightarrow> translations_dict \<times> int" where
  "add_new_keys loc [] t n = (t, n)"
| "add_new_keys loc (key # ks) t n =
    (if key \<notin> fst ` set t
     then add_new_keys loc ks
            (AList.update key (if loc = PStr ''en'' then PStr key else PStr '''') t) (n + 1)
     else add_new_keys loc ks t n)"

text \<open>
  \<^verbatim>\<open>save_yaml_file\<close> dumps the document with the YAML library: ruamel.yaml, or PyYAML
  with \<^verbatim>\<open>sort_keys=True\<close> when ruamel.yaml is missing. A file is kept here as what the
  parser yields for it, so the dump enters as the parameter \<open>reread\<close>: what the parser
  yields for the file that the dump of a document writes. That need not be the document
  saved: the PyYAML branch sorts the keys, and a U+0085 inside a string is written so
  that it is read back as a space.
\<close>

definition save_yaml_file :: "(catalog \<Rightarrow> yaml_file) \<Rightarrow> catalog \<Rightarrow> yaml_file" where
  "save_yaml_file reread data = reread data"

text \<open>
  Prepending the entry just visited to the outcome of the rest of the loop: \<open>visited\<close>
  for a file left as it is, \<open>written\<close> for a file saved with the document \<open>data\<close>.
\<close>

definition visited :: "string \<Rightarrow> yaml_file \<Rightarrow> 'r outcome \<Rightarrow> 'r outcome" where
  "visited name f rest = rest\<lparr>dir_after := (name, f) # dir_after rest\<rparr>"

definition written ::
  "(catalog \<Rightarrow> yaml_file) \<Rightarrow> string \<Rightarrow> catalog \<Rightarrow> 'r outcome \<Rightarrow> 'r outcome" where
  "written reread name data rest =
    rest\<lparr>dir_after := (name, save_yaml_file reread data) # dir_after rest,
         saved := (name, data) # saved rest\<rparr>"

definition raised :: "directory \<Rightarrow> error \<Rightarrow> 'r outcome" where
  "raised d e = \<lparr>dir_after = d, saved = [], returned = Inl e\<rparr>"

text \<open>
  The loop of \<^verbatim>\<open>merge_new_keys\<close> over the files. \<open>sorted(translations.items())\<close>
  compares the (key, value) pairs; the keys of a dict are distinct, so the values are
  never compared and the sort is the stable sort by key.
\<close>

fun merge_loop ::
  "(catalog \<Rightarrow> yaml_file) \<Rightarrow> string list \<Rightarrow> bool \<Rightarrow> directory \<Rightarrow> MergeResult \<Rightarrow>
   MergeResult outcome" where
  "merge_loop reread new_keys dry_run [] result =
    \<lparr>dir_after = [], saved = [], returned = Inr result\<rparr>"
| "merge_loop reread new_keys dry_run ((name, f) # rest) result =
    (case load_yaml_file f of
       Inl e \<Rightarrow> raised ((name, f) # rest) e
     | Inr (Mapping data) \<Rightarrow>
         (let loc = get_locale data name;
              (t, keys_added_to_file) = add_new_keys loc new_keys (get_translations data) 0
          in if keys_added_to_file > 0
             then (let result' = \<lparr>keys_added = keys_added result + keys_added_to_file,
                                   files_modified = files_modified result + 1,
                                   keys_per_file = AList.update name keys_added_to_file (keys_per_file result)\<rparr>;
                       data' = data\<lparr>translations_entry := TDict (sort_key fst t)\<rparr>
                   in if \<not> dry_run
                      then written reread name data' (merge_loop reread new_keys dry_run rest result')
                      else visited name f (merge_loop reread new_keys dry_run rest result'))
             else visited name f (merge_loop reread new_keys dry_run rest result))
     | Inr _ \<Rightarrow> raised ((name, f) # rest) AttributeError)"

definition merge_new_keys ::
  "(catalog \<Rightarrow> yaml_file) \<Rightarrow> directory \<Rightarrow> string list \<Rightarrow> bool \<Rightarrow> MergeResult outcome" where
  "merge_new_keys reread yaml_dir new_keys dry_run =
    merge_loop reread new_keys dry_run yaml_dir
      \<lparr>keys_added = 0, files_modified = 0, keys_per_file = []\<rparr>"

section \<open>coverage\<close>

text \<open>
  Python's floating-point operations are not defined here: the functions below take them
  as parameters, over a type \<open>'f\<close> of floats. They are the true division of two ints,
  the product of a float and an int, \<^verbatim>\<open>round(x, ndigits)\<close> and the literal
  \<^verbatim>\<open>100.0\<close>.
\<close>

record 'f float_ops =
  true_div :: "int \<Rightarrow> int \<Rightarrow> 'f"
  times_int :: "'f \<Rightarrow> int \<Rightarrow> 'f"
  py_round :: "'f \<Rightarrow> nat \<Rightarrow> 'f"
  lit_100 :: 'f

text \<open>The dict built for one locale; \<open>LanguageStats\<close> has the same fields.\<close>

record 'f LanguageStats =
  total :: int
  translated :: int
  missing :: int
  percentage :: 'f

text \<open>
  The inner loop of \<^verbatim>\<open>calculate_coverage\<close>, over the keys of the base catalog:
  \<^verbatim>\<open>value = translations.get(key, "")\<close>, counted when
  \<^verbatim>\<open>value and str(value).strip()\<close>.
\<close>

fun count_translated :: "string list \<Rightarrow> translations_dict \<Rightarrow> int \<Rightarrow> int" where
  "count_translated [] translations n = n"
| "count_translated (key # ks) translations n =
    (let v = (case map_of translations key of Some v \<Rightarrow> v | None \<Rightarrow> PStr [])
     in if truthy v \<and> py_strip (py_str v) \<noteq> []
        then count_translated ks translations (n + 1)
        else count_translated ks translations n)"

text \<open>
  The body of the loop of \<^verbatim>\<open>calculate_coverage\<close> over the files: the stats dict
  stored for a file with locale \<open>loc\<close> and translations \<open>translations\<close>.
\<close>

definition language_stats ::
  "'f float_ops \<Rightarrow> string \<Rightarrow> translations_dict \<Rightarrow> pyval \<Rightarrow> translations_dict \<Rightarrow> 'f LanguageStats" where
  "language_stats ops base_locale base_translations loc translations =
    (let total_keys = int (length base_translations)
     in if loc = PStr base_locale
        then \<lparr>total = total_keys, translated = total_keys, missing = 0, percentage = lit_100 ops\<rparr>
        else (let n = (if translations \<noteq> []
                       then count_translated (map fst base_translations) translations 0 else 0);
                  pct = (if total_keys > 0
                         then times_int ops (true_div ops n total_keys) 100
                         else lit_100 ops)
              in \<lparr>total = total_keys, translated = n, missing = total_keys - n,
                  percentage = py_round ops pct 1\<rparr>))"

fun coverage_loop ::
  "'f float_ops \<Rightarrow> string \<Rightarrow> translations_dict \<Rightarrow> directory \<Rightarrow>
   (pyval \<times> 'f LanguageStats) list \<Rightarrow> error + (pyval \<times> 'f LanguageStats) list" where
  "coverage_loop ops base_locale base_translations [] result = Inr result"
| "coverage_loop ops base_locale base_translations ((name, f) # rest) result =
    (case load_yaml_file f of
       Inl e \<Rightarrow> Inl e
     | Inr (Mapping data) \<Rightarrow>
         (let loc = get_locale data name
          in coverage_loop ops base_locale base_translations rest
               (AList.update loc
                  (language_stats ops base_locale base_translations loc (get_translations data))
                  result))
     | Inr _ \<Rightarrow> Inl AttributeError)"

text \<open>
  \<^verbatim>\<open>calculate_coverage\<close>: the base catalog is the file named after the base locale,
  or the first file of the listing when there is none.
\<close>

definition calculate_coverage ::
  "'f float_ops \<Rightarrow> directory \<Rightarrow> string \<Rightarrow> error + (pyval \<times> 'f LanguageStats) list" where
  "calculate_coverage ops yaml_dir base_locale =
    (case (case map_of yaml_dir (base_locale @ ''.yml'') of
             Some f \<Rightarrow> Some f
           | None \<Rightarrow> (case yaml_dir of [] \<Rightarrow> None | (name, f) # rest \<Rightarrow> Some f)) of
       None \<Rightarrow> Inr []
     | Some base_file \<Rightarrow>
         (case load_yaml_file base_file of
            Inl e \<Rightarrow> Inl e
          | Inr (Mapping base_data) \<Rightarrow>
              coverage_loop ops base_locale (get_translations base_data) yaml_dir []
          | Inr _ \<Rightarrow> Inl AttributeError))"

text \<open>
  The same operations in exact rational arithmetic, rounding to the nearest multiple of
  a power of one tenth with ties to the even one. Python's floats differ from them by
  the rounding error of each operation; they serve to run the functions on examples.
\<close>

definition round_half_even :: "rat \<Rightarrow> int" where
  "round_half_even x =
    (let f = \<lfloor>x\<rfloor>; r = x - of_int f
     in if r < 1 / 2 then f else if 1 / 2 < r then f + 1 else if even f then f else f + 1)"

definition exact_ops :: "rat float_ops" where
  "exact_ops =
    \<lparr>true_div = (\<lambda>a b. of_int a / of_int b),
     times_int = (\<lambda>x n. x * of_int n),
     py_round = (\<lambda>x n. of_int (round_half_even (x * 10 ^ n)) / 10 ^ n),
     lit_100 = 100\<rparr>"

section \<open>obsolete\<close>

text \<open>
  \<^verbatim>\<open>find_obsolete_keys\<close>. The extractor is a separate module: its result on the markup
  directory is the parameter \<open>xml_strings\<close>, and \<open>cpp_strings\<close> is its result on the C++
  directory, \<open>None\<close> when no such directory is given or it does not exist.
\<close>

definition find_obsolete_keys ::
  "string set \<Rightarrow> string set option \<Rightarrow> directory \<Rightarrow> string \<Rightarrow> error + string set" where
  "find_obsolete_keys xml_strings cpp_strings yaml_dir base_locale =
    (let used_strings = (case cpp_strings of None \<Rightarrow> xml_strings | Some c \<Rightarrow> xml_strings \<union> c)
     in case map_of yaml_dir (base_locale @ ''.yml'') of
          None \<Rightarrow> Inr {}
        | Some f \<Rightarrow>
            (case load_yaml_file f of
               Inl e \<Rightarrow> Inl e
             | Inr (Mapping base_data) \<Rightarrow>
                 (let base_translations = get_translations base_data
                  in if base_translations = [] then Inr {}
                     else Inr (set (map fst base_translations) - used_strings))
             | Inr _ \<Rightarrow> Inl AttributeError))"

text \<open>
  The inner loop of \<^verbatim>\<open>mark_obsolete_keys\<close>, over the obsolete keys in the order in
  which the set is iterated. The test is \<^verbatim>\<open>str(value).startswith("[DEPRECATED]")\<close> and
  the new value \<^verbatim>\<open>f"[DEPRECATED] {value}"\<close>: the marker, a space and \<^verbatim>\<open>str(value)\<close>.
\<close>

definition deprecated_marker :: string where
  "deprecated_marker = ''[DEPRECATED]''"

fun mark_keys ::
  "string list \<Rightarrow> translations_dict \<Rightarrow> bool \<Rightarrow> int \<Rightarrow> translations_dict \<times> bool \<times> int" where
  "mark_keys [] t modified marked = (t, modified, marked)"
| "mark_keys (key # ks) t modified marked =
    (case map_of t key of
       None \<Rightarrow> mark_keys ks t modified marked
     | Some v \<Rightarrow>
         if \<not> prefix deprecated_marker (py_str v)
         then mark_keys ks (AList.update key (PStr (deprecated_marker @ '' '' @ py_str v)) t) True (marked + 1)
         else mark_keys ks t modified marked)"

fun mark_loop ::
  "(catalog \<Rightarrow> yaml_file) \<Rightarrow> string list \<Rightarrow> bool \<Rightarrow> directory \<Rightarrow> int \<Rightarrow> int outcome" where
  "mark_loop reread obsolete_keys dry_run [] marked =
    \<lparr>dir_after = [], saved = [], returned = Inr marked\<rparr>"
| "mark_loop reread obsolete_keys dry_run ((name, f) # rest) marked =
    (case load_yaml_file f of
       Inl e \<Rightarrow> raised ((name, f) # rest) e
     | Inr (Mapping data) \<Rightarrow>
         (if get_translations data = []
          then visited name f (mark_loop reread obsolete_keys dry_run rest marked)
          else (let (t, modified, marked') = mark_keys obsolete_keys (get_translations data) False marked
                in if modified \<and> \<not> dry_run
                   then written reread name (data\<lparr>translations_entry := TDict t\<rparr>)
                          (mark_loop reread obsolete_keys dry_run rest marked')
                   else visited name f (mark_loop reread obsolete_keys dry_run rest marked')))
     | Inr _ \<Rightarrow> raised ((name, f) # rest) AttributeError)"

definition mark_obsolete_keys ::
  "(catalog \<Rightarrow> yaml_file) \<Rightarrow> directory \<Rightarrow> string list \<Rightarrow> bool \<Rightarrow> int outcome" where
  "mark_obsolete_keys reread yaml_dir obsolete_keys dry_run =
    (if obsolete_keys = [] then \<lparr>dir_after = yaml_dir, saved = [], returned = Inr 0\<rparr>
     else mark_loop reread obsolete_keys dry_run yaml_dir 0)"




section \<open>YAML libraries\<close>

text \<open>
  Two YAML libraries, for running the functions on examples. \<open>reread_as_saved\<close>
  re-reads every saved document as it was saved. \<open>reread_pyyaml\<close> is the PyYAML branch
  (\<^verbatim>\<open>pyyaml.dump(data, f, allow_unicode=True, sort_keys=True)\<close>, read again by
  \<^verbatim>\<open>pyyaml.safe_load\<close>) on the translations: the dump sorts the entries by key and
  writes a U+0085 (bytes \<open>C2 85\<close>) inside a key or value as it is, in a quoted scalar,
  where the parser reads it as a line break and folds it, so that a U+0085 standing alone
  between two words comes back as a space; of two entries whose keys come back equal, the
  parser keeps the place of the first and the value of the last. (A run of several U+0085,
  or one next to a space or at an end of the string, folds differently; the examples
  have none.)
\<close>

definition reread_as_saved :: "catalog \<Rightarrow> yaml_file" where
  "reread_as_saved data = Parsed (Mapping data)"

fun nel_as_space :: "string \<Rightarrow> string" where
  "nel_as_space (c # d # cs) =
    (if c = CHR 0xC2 \<and> d = CHR 0x85 then CHR '' '' # nel_as_space cs
     else c # nel_as_space (d # cs))"
| "nel_as_space cs = cs"

definition reread_pyyaml :: "catalog \<Rightarrow> yaml_file" where
  "reread_pyyaml data =
    Parsed (Mapping (data\<lparr>translations_entry :=
      (case translations_entry data of
         TDict t \<Rightarrow>
           TDict (foldl (\<lambda>acc (k, v).
                    AList.update (nel_as_space k)
                      (case v of PNone \<Rightarrow> PNone | PStr s \<Rightarrow> PStr (nel_as_space s)) acc)
                  [] (sort_key fst t))
       | e \<Rightarrow> e)\<rparr>))"

section \<open>Example catalogs\<close>

text \<open>
  An English and a German catalog, the English one with its keys out of order, and a
  directory holding both.
\<close>

definition example_en :: catalog where
  "example_en =
    \<lparr>locale_entry = Some (PStr ''en''),
     translations_entry = TDict [(''B'', PStr ''B''), (''A'', PStr ''A'')],
     others = []\<rparr>"

definition example_de :: catalog where
  "example_de =
    \<lparr>locale_entry = Some (PStr ''de''),
     translations_entry = TDict [(''A'', PStr ''A-de''), (''B'', PStr '''')],
     others = []\<rparr>"

definition example_dir :: directory where
  "example_dir = [(''en.yml'', Parsed (Mapping example_en)), (''de.yml'', Parsed (Mapping example_de))]"

text \<open>The key \<open>Save<U+0085>now\<close>, in UTF-8.\<close>

definition nel_key :: string where
  "nel_key = ''Save'' @ [CHR 0xC2, CHR 0x85] @ ''now''"

text \<open>A German catalog that holds that key.\<close>

definition example_nel :: catalog where
  "example_nel =
    \<lparr>locale_entry = Some (PStr ''de''),
     translations_entry = TDict [(''Old'', PStr ''Alt''), (nel_key, PStr ''Jetzt speichern'')],
     others = []\<rparr>"

section \<open>Loading a catalog file\<close>

lemma get_translations_saved:
  "get_translations (data\<lparr>translations_entry := TDict t\<rparr>) = t"
  by (simp add: get_translations_def)

text \<open>
  C9, as amended. For every catalog file whose text parses to an empty document (the
  empty file, which yields null, or an empty string, sequence or mapping),
  \<open>load_yaml_file\<close> does not fail: it returns the catalog with locale \<open>""\<close> and empty
  translations.
\<close>

theorem load_yaml_file_empty_document:
  "\<not> truthy_doc d \<Longrightarrow>
   load_yaml_file (Parsed d) =
     Inr (Mapping \<lparr>locale_entry = Some (PStr ''''), translations_entry = TDict [], others = []\<rparr>)"
  by (simp add: load_yaml_file_def empty_catalog_def)

theorem load_yaml_file_empty_document_witness:
  "\<not> truthy_doc (Scalar PNone) \<and>
   load_yaml_file (Parsed (Scalar PNone)) =
     Inr (Mapping \<lparr>locale_entry = Some (PStr ''''), translations_entry = TDict [], others = []\<rparr>)"
  using load_yaml_file_empty_document [of "Scalar PNone"] by simp

text \<open>
  C9, as stated, fails: a file that the YAML parser rejects makes \<open>load_yaml_file\<close> raise
  the parser's error, since nothing catches it; no catalog is returned.
\<close>

theorem load_yaml_file_malformed_counterexample:
  "load_yaml_file Unparseable = Inl YAMLError \<and>
   load_yaml_file Unparseable \<noteq>
     Inr (Mapping \<lparr>locale_entry = Some (PStr ''''), translations_entry = TDict [], others = []\<rparr>)"
  by (simp add: load_yaml_file_def)

section \<open>Merging new keys\<close>

lemma visited_simps [simp]:
  "returned (visited name f rest) = returned rest"
  "dir_after (visited name f rest) = (name, f) # dir_after rest"
  "saved (visited name f rest) = saved rest"
  by (simp_all add: visited_def)

lemma written_simps [simp]:
  "returned (written reread name data rest) = returned rest"
  "dir_after (written reread name data rest) = (name, save_yaml_file reread data) # dir_after rest"
  "saved (written reread name data rest) = (name, data) # saved rest"
  by (simp_all add: written_def)

lemma raised_simps [simp]:
  "returned (raised d e) = Inl e" "dir_after (raised d e) = d" "saved (raised d e) = []"
  by (simp_all add: raised_def)





lemma add_new_keys_keys:
  "fst ` set (fst (add_new_keys loc ks t n)) = fst ` set t \<union> set ks"
proof (induction ks arbitrary: t n)
  case Nil
  then show ?case by simp
next
  case (Cons key ks)
  show ?case
  proof (cases "key \<in> fst ` set t")
    case True
    then show ?thesis using Cons.IH [of t n] by auto
  next
    case False
    then show ?thesis
      using Cons.IH [of "AList.update key (if loc = PStr ''en'' then PStr key else PStr []) t" "n + 1"]
      by (simp add: dom_update)
  qed
qed

lemma add_new_keys_count:
  "snd (add_new_keys loc ks t n) = n + int (card (set ks - fst ` set t))"
proof (induction ks arbitrary: t n)
  case Nil
  then show ?case by simp
next
  case (Cons key ks)
  show ?case
  proof (cases "key \<in> fst ` set t")
    case True
    then have "set (key # ks) - fst ` set t = set ks - fst ` set t" by auto
    with True show ?thesis using Cons.IH [of t n] by simp
  next
    case False
    let ?t = "AList.update key (if loc = PStr ''en'' then PStr key else PStr []) t"
    have keys: "fst ` set ?t = insert key (fst ` set t)"
      by (simp add: dom_update)
    have "set (key # ks) - fst ` set t = insert key (set ks - fst ` set ?t)"
      using False by (auto simp: keys)
    moreover have "key \<notin> set ks - fst ` set ?t" by (simp add: keys)
    ultimately have "card (set (key # ks) - fst ` set t) = Suc (card (set ks - fst ` set ?t))"
      by simp
    with False show ?thesis using Cons.IH [of ?t "n + 1"] by simp
  qed
qed

lemma add_new_keys_pos_iff:
  "0 < snd (add_new_keys loc ks t 0) \<longleftrightarrow> (\<exists>k\<in>set ks. k \<notin> fst ` set t)"
proof -
  have "0 < card (set ks - fst ` set t) \<longleftrightarrow> (\<exists>k\<in>set ks. k \<notin> fst ` set t)"
    by (auto simp: card_gt_0_iff)
  then show ?thesis by (simp add: add_new_keys_count)
qed


lemma merge_loop_Cons:
  "merge_loop reread ks dry ((name, f) # rest) r =
    (case load_yaml_file f of
       Inl e \<Rightarrow> raised ((name, f) # rest) e
     | Inr (Mapping data) \<Rightarrow>
         if \<exists>k\<in>set ks. k \<notin> fst ` set (get_translations data)
         then (let rest' = merge_loop reread ks dry rest
                   \<lparr>keys_added = keys_added r + int (card (set ks - fst ` set (get_translations data))),
                    files_modified = files_modified r + 1,
                    keys_per_file = AList.update name
                      (int (card (set ks - fst ` set (get_translations data)))) (keys_per_file r)\<rparr>
               in if dry then visited name f rest'
                  else written reread name
                         (data\<lparr>translations_entry :=
                            TDict (sort_key fst (fst (add_new_keys (get_locale data name) ks
                                     (get_translations data) 0)))\<rparr>) rest')
         else visited name f (merge_loop reread ks dry rest r)
     | Inr (Scalar v) \<Rightarrow> raised ((name, f) # rest) AttributeError
     | Inr (Sequence xs) \<Rightarrow> raised ((name, f) # rest) AttributeError)"
proof (cases "load_yaml_file f")
  case (Inl e)
  then show ?thesis by simp
next
  case (Inr doc)
  show ?thesis
  proof (cases doc)
    case (Mapping data)
    obtain t n where tn: "add_new_keys (get_locale data name) ks (get_translations data) 0 = (t, n)"
      by (cases "add_new_keys (get_locale data name) ks (get_translations data) 0")
    have n: "n = int (card (set ks - fst ` set (get_translations data)))"
      using add_new_keys_count [of "get_locale data name" ks "get_translations data" 0] tn by simp
    have pos: "0 < n \<longleftrightarrow> (\<exists>k\<in>set ks. k \<notin> fst ` set (get_translations data))"
      using add_new_keys_pos_iff [of "get_locale data name" ks "get_translations data"] tn by simp
    show ?thesis
    proof (cases "0 < n")
      case True
      with pos have ex: "\<exists>k\<in>set ks. k \<notin> fst ` set (get_translations data)" by simp
      from True show ?thesis
        unfolding merge_loop.simps Inr Mapping
        using ex n by (simp add: tn Let_def)
    next
      case False
      with pos have nex: "\<not> (\<exists>k\<in>set ks. k \<notin> fst ` set (get_translations data))" by simp
      from False show ?thesis
        unfolding merge_loop.simps Inr Mapping
        using nex by (simp add: tn Let_def)
    qed
  qed (simp_all add: Inr)
qed

lemma merge_loop_length: "length (dir_after (merge_loop reread ks dry d r)) = length d"
proof (induction d arbitrary: r dry)
  case Nil
  then show ?case by simp
next
  case (Cons p d)
  obtain name f where p: "p = (name, f)" by (cases p)
  show ?case
    unfolding p merge_loop_Cons
    by (simp add: Cons.IH Let_def split: sum.splits document.splits)
qed


lemma merge_loop_success_Cons:
  assumes "returned (merge_loop reread ks dry ((name, f) # d) r) = Inr res"
  shows "\<exists>r'. returned (merge_loop reread ks dry d r') = Inr res \<and>
           (\<forall>j. dir_after (merge_loop reread ks dry ((name, f) # d) r) ! Suc j =
                dir_after (merge_loop reread ks dry d r') ! j) \<and>
           set (saved (merge_loop reread ks dry d r')) \<subseteq>
             set (saved (merge_loop reread ks dry ((name, f) # d) r))"
proof -
  from assms obtain data where data: "load_yaml_file f = Inr (Mapping data)"
    unfolding merge_loop_Cons by (auto split: sum.splits document.splits)
  show ?thesis
  proof (cases "\<exists>k\<in>set ks. k \<notin> fst ` set (get_translations data)")
    case True
    let ?r = "\<lparr>keys_added = keys_added r + int (card (set ks - fst ` set (get_translations data))),
                files_modified = files_modified r + 1,
                keys_per_file = AList.update name
                  (int (card (set ks - fst ` set (get_translations data)))) (keys_per_file r)\<rparr>"
    from True assms have "returned (merge_loop reread ks dry d ?r) = Inr res"
      unfolding merge_loop_Cons by (simp add: data Let_def split: if_splits)
    moreover from True have
      "\<forall>j. dir_after (merge_loop reread ks dry ((name, f) # d) r) ! Suc j =
                dir_after (merge_loop reread ks dry d ?r) ! j"
      "set (saved (merge_loop reread ks dry d ?r)) \<subseteq>
             set (saved (merge_loop reread ks dry ((name, f) # d) r))"
      unfolding merge_loop_Cons by (auto simp: data Let_def)
    ultimately show ?thesis by blast
  next
    case False
    with assms have "returned (merge_loop reread ks dry d r) = Inr res"
      unfolding merge_loop_Cons by (simp add: data)
    moreover from False have
      "\<forall>j. dir_after (merge_loop reread ks dry ((name, f) # d) r) ! Suc j =
                dir_after (merge_loop reread ks dry d r) ! j"
      "set (saved (merge_loop reread ks dry d r)) \<subseteq>
             set (saved (merge_loop reread ks dry ((name, f) # d) r))"
      unfolding merge_loop_Cons by (auto simp: data)
    ultimately show ?thesis by blast
  qed
qed

lemma merge_loop_success_nth:
  assumes "returned (merge_loop reread ks False d r) = Inr res" and "i < length d" and "d ! i = (name, f)"
  shows "\<exists>data. load_yaml_file f = Inr (Mapping data) \<and>
     (if \<exists>k\<in>set ks. k \<notin> fst ` set (get_translations data)
      then dir_after (merge_loop reread ks False d r) ! i =
             (name, save_yaml_file reread (data\<lparr>translations_entry :=
                TDict (sort_key fst (fst (add_new_keys (get_locale data name) ks
                         (get_translations data) 0)))\<rparr>)) \<and>
           (name, data\<lparr>translations_entry :=
                TDict (sort_key fst (fst (add_new_keys (get_locale data name) ks
                         (get_translations data) 0)))\<rparr>)
             \<in> set (saved (merge_loop reread ks False d r))
      else dir_after (merge_loop reread ks False d r) ! i = (name, f))"
  using assms
proof (induction d arbitrary: i r)
  case Nil
  then show ?case by simp
next
  case (Cons p d)
  obtain name0 f0 where p: "p = (name0, f0)" by (cases p)
  show ?case
  proof (cases i)
    case 0
    with Cons.prems p have eq: "name0 = name" "f0 = f" by simp_all
    show ?thesis
      using Cons.prems(1)
      unfolding p eq merge_loop_Cons 0
      by (auto simp: Let_def split: sum.splits document.splits if_splits)
  next
    case (Suc j)
    with Cons.prems have j: "j < length d" "d ! j = (name, f)" by simp_all
    from Cons.prems(1) obtain r' where
      ret: "returned (merge_loop reread ks False d r') = Inr res" and
      nth: "dir_after (merge_loop reread ks False (p # d) r) ! Suc j =
        dir_after (merge_loop reread ks False d r') ! j" and
      sub: "set (saved (merge_loop reread ks False d r')) \<subseteq>
        set (saved (merge_loop reread ks False (p # d) r))"
      unfolding p using merge_loop_success_Cons by blast
    from Cons.IH [OF ret j] obtain data where
      data: "load_yaml_file f = Inr (Mapping data)" and
      ih: "if \<exists>k\<in>set ks. k \<notin> fst ` set (get_translations data)
      then dir_after (merge_loop reread ks False d r') ! j =
             (name, save_yaml_file reread (data\<lparr>translations_entry :=
                TDict (sort_key fst (fst (add_new_keys (get_locale data name) ks
                         (get_translations data) 0)))\<rparr>)) \<and>
           (name, data\<lparr>translations_entry :=
                TDict (sort_key fst (fst (add_new_keys (get_locale data name) ks
                         (get_translations data) 0)))\<rparr>)
             \<in> set (saved (merge_loop reread ks False d r'))
      else dir_after (merge_loop reread ks False d r') ! j = (name, f)"
      by blast
    show ?thesis
      unfolding Suc nth using data ih sub
      by (cases "\<exists>k\<in>set ks. k \<notin> fst ` set (get_translations data)") auto
  qed
qed

lemma merge_loop_all_present:
  assumes "\<And>name f. (name, f) \<in> set d \<Longrightarrow>
            \<exists>data. load_yaml_file f = Inr (Mapping data) \<and> set ks \<subseteq> fst ` set (get_translations data)"
  shows "merge_loop reread ks dry d r = \<lparr>dir_after = d, saved = [], returned = Inr r\<rparr>"
  using assms
proof (induction d arbitrary: r)
  case Nil
  then show ?case by simp
next
  case (Cons p d)
  obtain name f where p: "p = (name, f)" by (cases p)
  from Cons.prems [of name f] obtain data where
    data: "load_yaml_file f = Inr (Mapping data)" "set ks \<subseteq> fst ` set (get_translations data)"
    by (auto simp: p)
  have rest: "merge_loop reread ks dry d r = \<lparr>dir_after = d, saved = [], returned = Inr r\<rparr>"
    using Cons.prems by (intro Cons.IH) auto
  from data(2) have "\<not> (\<exists>k\<in>set ks. k \<notin> fst ` set (get_translations data))" by auto
  then show ?case
    unfolding p merge_loop_Cons by (simp add: data(1) rest visited_def)
qed

lemma merge_loop_saved:
  assumes "(name, data') \<in> set (saved (merge_loop reread ks dry d r))"
  shows "\<not> dry \<and> (\<exists>f data. (name, f) \<in> set d \<and> load_yaml_file f = Inr (Mapping data) \<and>
           (\<exists>k\<in>set ks. k \<notin> fst ` set (get_translations data)))"
  using assms
proof (induction d arbitrary: r)
  case Nil
  then show ?case by simp
next
  case (Cons p d)
  obtain name0 f0 where p: "p = (name0, f0)" by (cases p)
  show ?case
  proof (cases "load_yaml_file f0")
    case (Inl e)
    with Cons.prems show ?thesis unfolding p merge_loop_Cons by simp
  next
    case (Inr doc)
    show ?thesis
    proof (cases doc)
      case (Mapping data)
      show ?thesis
      proof (cases "\<exists>k\<in>set ks. k \<notin> fst ` set (get_translations data)")
        case True
        let ?r = "\<lparr>keys_added = keys_added r + int (card (set ks - fst ` set (get_translations data))),
                    files_modified = files_modified r + 1,
                    keys_per_file = AList.update name0
                      (int (card (set ks - fst ` set (get_translations data)))) (keys_per_file r)\<rparr>"
        from Cons.prems True have
          "(\<not> dry \<and> name = name0) \<or> (name, data') \<in> set (saved (merge_loop reread ks dry d ?r))"
          unfolding p merge_loop_Cons by (auto simp: Inr Mapping Let_def split: if_splits)
        then show ?thesis
        proof
          assume "\<not> dry \<and> name = name0"
          with True Inr Mapping show ?thesis by (auto simp: p)
        next
          assume "(name, data') \<in> set (saved (merge_loop reread ks dry d ?r))"
          from Cons.IH [OF this] show ?thesis by auto
        qed
      next
        case False
        with Cons.prems have "(name, data') \<in> set (saved (merge_loop reread ks dry d r))"
          unfolding p merge_loop_Cons by (simp add: Inr Mapping)
        from Cons.IH [OF this] show ?thesis by auto
      qed
    next
      case (Scalar v)
      with Cons.prems Inr show ?thesis unfolding p merge_loop_Cons by simp
    next
      case (Sequence xs)
      with Cons.prems Inr show ?thesis unfolding p merge_loop_Cons by simp
    qed
  qed
qed







text \<open>
  C3, as amended. Merge is idempotent when the YAML library re-reads every catalog that
  the first run saved with the keys and values it was saved with: after a run of
  \<open>merge_new_keys\<close> that writes and returns, a second run with the same new keys (dry
  or not) then reports zero keys added and zero files modified, saves no file and leaves
  the directory as it is. In general, in any run and whatever the library, a file is
  saved only if some new key was missing from its catalog: a catalog to which zero keys
  are added is never persisted.
\<close>

theorem merge_idempotent:
  "(returned (merge_new_keys reread yaml_dir new_keys False) = Inr res \<and>
    (\<forall>(name, data') \<in> set (saved (merge_new_keys reread yaml_dir new_keys False)).
       \<exists>data''. load_yaml_file (save_yaml_file reread data') = Inr (Mapping data'') \<and>
         map_of (get_translations data'') = map_of (get_translations data')) \<longrightarrow>
      merge_new_keys reread (dir_after (merge_new_keys reread yaml_dir new_keys False))
          new_keys dry_run =
        \<lparr>dir_after = dir_after (merge_new_keys reread yaml_dir new_keys False), saved = [],
         returned = Inr \<lparr>keys_added = 0, files_modified = 0, keys_per_file = []\<rparr>\<rparr>) \<and>
   ((name, data') \<in> set (saved (merge_new_keys reread yaml_dir new_keys dry_run)) \<longrightarrow>
      (\<exists>f data. (name, f) \<in> set yaml_dir \<and> load_yaml_file f = Inr (Mapping data) \<and>
         (\<exists>k\<in>set new_keys. k \<notin> fst ` set (get_translations data))))"
proof (intro conjI impI)
  let ?run = "merge_new_keys reread yaml_dir new_keys False"
  assume a: "returned ?run = Inr res \<and>
    (\<forall>(name, data') \<in> set (saved ?run).
       \<exists>data''. load_yaml_file (save_yaml_file reread data') = Inr (Mapping data'') \<and>
         map_of (get_translations data'') = map_of (get_translations data'))"
  then have ret: "returned ?run = Inr res" by blast
  from a have rr: "\<And>name data'. (name, data') \<in> set (saved ?run) \<Longrightarrow>
       \<exists>data''. load_yaml_file (save_yaml_file reread data') = Inr (Mapping data'') \<and>
         map_of (get_translations data'') = map_of (get_translations data')"
    by blast
  have present: "\<exists>data''. load_yaml_file f' = Inr (Mapping data'') \<and>
      set new_keys \<subseteq> fst ` set (get_translations data'')"
    if "(name, f') \<in> set (dir_after ?run)" for name f'
  proof -
    from that obtain i where i: "i < length (dir_after ?run)" "dir_after ?run ! i = (name, f')"
      by (auto simp: in_set_conv_nth)
    then have len: "i < length yaml_dir" by (simp add: merge_new_keys_def merge_loop_length)
    obtain name0 f where f: "yaml_dir ! i = (name0, f)" by (cases "yaml_dir ! i")
    let ?merged = "\<lambda>data. data\<lparr>translations_entry :=
                TDict (sort_key fst (fst (add_new_keys (get_locale data name0) new_keys
                         (get_translations data) 0)))\<rparr>"
    from merge_loop_success_nth [OF ret [unfolded merge_new_keys_def] len f] obtain data where
      data: "load_yaml_file f = Inr (Mapping data)" and
      after: "if \<exists>k\<in>set new_keys. k \<notin> fst ` set (get_translations data)
        then dir_after ?run ! i = (name0, save_yaml_file reread (?merged data)) \<and>
             (name0, ?merged data) \<in> set (saved ?run)
        else dir_after ?run ! i = (name0, f)"
      unfolding merge_new_keys_def by blast
    show ?thesis
    proof (cases "\<exists>k\<in>set new_keys. k \<notin> fst ` set (get_translations data)")
      case True
      with after i(2) have f': "f' = save_yaml_file reread (?merged data)"
        and sv: "(name0, ?merged data) \<in> set (saved ?run)" by simp_all
      from rr [OF sv] obtain data'' where
        l: "load_yaml_file (save_yaml_file reread (?merged data)) = Inr (Mapping data'')" and
        m: "map_of (get_translations data'') = map_of (get_translations (?merged data))"
        by blast
      have "fst ` set (get_translations data'') = dom (map_of (get_translations data''))"
        by (simp add: dom_map_of_conv_image_fst)
      also have "\<dots> = fst ` set (get_translations (?merged data))"
        by (simp add: m dom_map_of_conv_image_fst)
      also have "\<dots> = fst ` set (get_translations data) \<union> set new_keys"
        by (simp add: get_translations_saved add_new_keys_keys)
      finally show ?thesis using l f' by auto
    next
      case False
      with after i(2) have "f' = f" by simp
      with data False show ?thesis by auto
    qed
  qed
  from merge_loop_all_present [of "dir_after ?run" new_keys reread dry_run] present
  show "merge_new_keys reread (dir_after ?run) new_keys dry_run =
        \<lparr>dir_after = dir_after ?run, saved = [],
         returned = Inr \<lparr>keys_added = 0, files_modified = 0, keys_per_file = []\<rparr>\<rparr>"
    unfolding merge_new_keys_def by blast
next
  assume "(name, data') \<in> set (saved (merge_new_keys reread yaml_dir new_keys dry_run))"
  from merge_loop_saved [OF this [unfolded merge_new_keys_def]]
  show "\<exists>f data. (name, f) \<in> set yaml_dir \<and> load_yaml_file f = Inr (Mapping data) \<and>
         (\<exists>k\<in>set new_keys. k \<notin> fst ` set (get_translations data))"
    by blast
qed

theorem merge_idempotent_witness:
  "returned (merge_new_keys reread_as_saved example_dir [''C''] False) =
     Inr \<lparr>keys_added = 2, files_modified = 2, keys_per_file = [(''en.yml'', 1), (''de.yml'', 1)]\<rparr> \<and>
   saved (merge_new_keys reread_as_saved example_dir [''C''] False) =
     [(''en.yml'', example_en\<lparr>translations_entry :=
         TDict [(''A'', PStr ''A''), (''B'', PStr ''B''), (''C'', PStr ''C'')]\<rparr>),
      (''de.yml'', example_de\<lparr>translations_entry :=
         TDict [(''A'', PStr ''A-de''), (''B'', PStr ''''), (''C'', PStr '''')]\<rparr>)] \<and>
   merge_new_keys reread_as_saved
       (dir_after (merge_new_keys reread_as_saved example_dir [''C''] False)) [''C''] False =
     \<lparr>dir_after = dir_after (merge_new_keys reread_as_saved example_dir [''C''] False), saved = [],
      returned = Inr \<lparr>keys_added = 0, files_modified = 0, keys_per_file = []\<rparr>\<rparr> \<and>
   (\<exists>f data. (''de.yml'', f) \<in> set example_dir \<and> load_yaml_file f = Inr (Mapping data) \<and>
      (\<exists>k\<in>set [''C'']. k \<notin> fst ` set (get_translations data)))"
proof -
  have r: "returned (merge_new_keys reread_as_saved example_dir [''C''] False) =
     Inr \<lparr>keys_added = 2, files_modified = 2, keys_per_file = [(''en.yml'', 1), (''de.yml'', 1)]\<rparr>"
    by (simp add: example_dir_def example_en_def example_de_def merge_new_keys_def
        load_yaml_file_def get_locale_def get_translations_def visited_def written_def Let_def)
  have s: "saved (merge_new_keys reread_as_saved example_dir [''C''] False) =
     [(''en.yml'', example_en\<lparr>translations_entry :=
         TDict [(''A'', PStr ''A''), (''B'', PStr ''B''), (''C'', PStr ''C'')]\<rparr>),
      (''de.yml'', example_de\<lparr>translations_entry :=
         TDict [(''A'', PStr ''A-de''), (''B'', PStr ''''), (''C'', PStr '''')]\<rparr>)]"
    by (simp add: example_dir_def example_en_def example_de_def merge_new_keys_def
        load_yaml_file_def get_locale_def get_translations_def visited_def written_def Let_def)
  have rr: "\<forall>(name, data') \<in> set (saved (merge_new_keys reread_as_saved example_dir [''C''] False)).
       \<exists>data''. load_yaml_file (save_yaml_file reread_as_saved data') = Inr (Mapping data'') \<and>
         map_of (get_translations data'') = map_of (get_translations data')"
    unfolding s
    by (simp add: save_yaml_file_def reread_as_saved_def load_yaml_file_def example_en_def example_de_def)
  have m: "(''de.yml'', example_de\<lparr>translations_entry :=
         TDict [(''A'', PStr ''A-de''), (''B'', PStr ''''), (''C'', PStr '''')]\<rparr>) \<in>
      set (saved (merge_new_keys reread_as_saved example_dir [''C''] False))"
    unfolding s by simp
  from merge_idempotent [where reread = reread_as_saved and yaml_dir = example_dir
        and new_keys = "[''C'']" and dry_run = False and name = "''de.yml''"] r rr m
  have "merge_new_keys reread_as_saved
       (dir_after (merge_new_keys reread_as_saved example_dir [''C''] False)) [''C''] False =
     \<lparr>dir_after = dir_after (merge_new_keys reread_as_saved example_dir [''C''] False), saved = [],
      returned = Inr \<lparr>keys_added = 0, files_modified = 0, keys_per_file = []\<rparr>\<rparr>"
    and "\<exists>f data. (''de.yml'', f) \<in> set example_dir \<and> load_yaml_file f = Inr (Mapping data) \<and>
      (\<exists>k\<in>set [''C'']. k \<notin> fst ` set (get_translations data))"
    by blast+
  with r s show ?thesis by (intro conjI)
qed

text \<open>
  C3, as stated, fails. With the PyYAML branch, which reads a saved U+0085 back as a
  space, merging the new key \<open>Save<U+0085>now\<close> writes both catalogs, which then re-read with
  the key \<open>Save now\<close>; a second run with the same new key misses it again, adds two keys
  and saves both files again.
\<close>

theorem merge_idempotent_counterexample:
  "returned (merge_new_keys reread_pyyaml example_dir [nel_key] False) =
     Inr \<lparr>keys_added = 2, files_modified = 2, keys_per_file = [(''en.yml'', 1), (''de.yml'', 1)]\<rparr> \<and>
   returned (merge_new_keys reread_pyyaml
       (dir_after (merge_new_keys reread_pyyaml example_dir [nel_key] False)) [nel_key] False) =
     Inr \<lparr>keys_added = 2, files_modified = 2, keys_per_file = [(''en.yml'', 1), (''de.yml'', 1)]\<rparr> \<and>
   map fst (saved (merge_new_keys reread_pyyaml
       (dir_after (merge_new_keys reread_pyyaml example_dir [nel_key] False)) [nel_key] False)) =
     [''en.yml'', ''de.yml'']"
  by (simp add: example_dir_def example_en_def example_de_def merge_new_keys_def nel_key_def
      load_yaml_file_def get_locale_def get_translations_def visited_def written_def Let_def
      save_yaml_file_def reread_pyyaml_def)

section \<open>Coverage\<close>

lemma py_strip_Nil [simp]: "py_strip [] = []"
  by (simp add: py_strip_def)

lemma count_translated_eq:
  "count_translated ks t n =
   n + int (length (filter (\<lambda>k. \<exists>s. map_of t k = Some (PStr s) \<and> py_strip s \<noteq> []) ks))"
proof (induction ks arbitrary: n)
  case Nil
  then show ?case by simp
next
  case (Cons key ks)
  show ?case
  proof (cases "map_of t key")
    case None
    then show ?thesis by (simp add: Cons.IH)
  next
    case (Some v)
    then show ?thesis by (cases v) (auto simp: Cons.IH)
  qed
qed

lemma language_stats_eq:
  "language_stats ops bl bt loc t =
    (if loc = PStr bl
     then \<lparr>total = int (length bt), translated = int (length bt), missing = 0,
           percentage = lit_100 ops\<rparr>
     else \<lparr>total = int (length bt),
           translated = int (length (filter (\<lambda>k. \<exists>s. map_of t k = Some (PStr s) \<and> py_strip s \<noteq> [])
                                       (map fst bt))),
           missing = int (length bt) -
             int (length (filter (\<lambda>k. \<exists>s. map_of t k = Some (PStr s) \<and> py_strip s \<noteq> [])
                            (map fst bt))),
           percentage = py_round ops
             (if bt \<noteq> []
              then times_int ops (true_div ops
                     (int (length (filter (\<lambda>k. \<exists>s. map_of t k = Some (PStr s) \<and> py_strip s \<noteq> [])
                                     (map fst bt))))
                     (int (length bt))) 100
              else lit_100 ops) 1\<rparr>)"
  by (cases "t = []") (simp_all add: language_stats_def Let_def count_translated_eq)

lemma coverage_loop_keys:
  "coverage_loop ops bl bt d acc = Inr result \<Longrightarrow>
   fst ` set result = fst ` set acc \<union>
     {loc. \<exists>name f data. (name, f) \<in> set d \<and> load_yaml_file f = Inr (Mapping data) \<and>
        get_locale data name = loc}"
proof (induction d arbitrary: acc)
  case Nil
  then show ?case by simp
next
  case (Cons p d)
  obtain name f where p: "p = (name, f)" by (cases p)
  from Cons.prems obtain data where data: "load_yaml_file f = Inr (Mapping data)"
    and rest: "coverage_loop ops bl bt d
        (AList.update (get_locale data name)
           (language_stats ops bl bt (get_locale data name) (get_translations data)) acc) = Inr result"
    unfolding p by (auto simp: Let_def split: sum.splits document.splits)
  from Cons.IH [OF rest] show ?case
    unfolding p using data by (auto simp: dom_update)
qed

lemma coverage_loop_entry:
  assumes "coverage_loop ops bl bt d acc = Inr result" and "map_of result loc = Some s"
  shows "map_of acc loc = Some s \<or>
    (\<exists>name f data. (name, f) \<in> set d \<and> load_yaml_file f = Inr (Mapping data) \<and>
       get_locale data name = loc \<and> s = language_stats ops bl bt loc (get_translations data))"
  using assms
proof (induction d arbitrary: acc)
  case Nil
  then show ?case by simp
next
  case (Cons p d)
  obtain name f where p: "p = (name, f)" by (cases p)
  from Cons.prems(1) obtain data where data: "load_yaml_file f = Inr (Mapping data)"
    and rest: "coverage_loop ops bl bt d
        (AList.update (get_locale data name)
           (language_stats ops bl bt (get_locale data name) (get_translations data)) acc) = Inr result"
    unfolding p by (auto simp: Let_def split: sum.splits document.splits)
  from Cons.IH [OF rest Cons.prems(2)] show ?case
  proof
    assume "map_of (AList.update (get_locale data name)
           (language_stats ops bl bt (get_locale data name) (get_translations data)) acc) loc = Some s"
    then show ?thesis
      unfolding p using data by (auto simp: update_conv' split: if_splits)
  next
    assume "\<exists>name f data. (name, f) \<in> set d \<and> load_yaml_file f = Inr (Mapping data) \<and>
       get_locale data name = loc \<and> s = language_stats ops bl bt loc (get_translations data)"
    then show ?thesis by auto
  qed
qed

text \<open>
  C5. Coverage formula. Let \<open>calculate_coverage\<close> return \<open>result\<close>, the base catalog being
  the file named after the base locale (or the first file of the listing when there is
  none), and let \<open>round(100.0, 1)\<close> be \<open>100.0\<close>. Then \<open>result\<close> has an entry for the locale
  of every file, and every entry is that of a file with that locale, with \<open>total\<close> the
  number of keys of the base catalog and:
  for the base locale, \<open>translated = total\<close>, \<open>missing = 0\<close> and \<open>percentage = 100.0\<close>,
  whatever the values of the file;
  for any other locale, \<open>translated\<close> the number of base keys whose value in the file is
  a string that is non-empty after trimming, \<open>missing = total - translated\<close>, and
  \<open>percentage = round(translated / total * 100, 1)\<close>, or \<open>100.0\<close> when \<open>total = 0\<close>.
\<close>

theorem coverage_formula:
  assumes "calculate_coverage ops yaml_dir base_locale = Inr result"
    and "py_round ops (lit_100 ops) 1 = lit_100 ops"
    and "map_of yaml_dir (base_locale @ ''.yml'') = Some base_file \<or>
         map_of yaml_dir (base_locale @ ''.yml'') = None \<and> yaml_dir \<noteq> [] \<and>
         base_file = snd (hd yaml_dir)"
  shows "\<exists>base_data.
    load_yaml_file base_file = Inr (Mapping base_data) \<and>
    fst ` set result =
      {loc. \<exists>name f data. (name, f) \<in> set yaml_dir \<and> load_yaml_file f = Inr (Mapping data) \<and>
         get_locale data name = loc} \<and>
    (\<forall>loc s. map_of result loc = Some s \<longrightarrow>
      (\<exists>name f data.
         (name, f) \<in> set yaml_dir \<and> load_yaml_file f = Inr (Mapping data) \<and>
         get_locale data name = loc \<and>
         total s = int (length (get_translations base_data)) \<and>
         (if loc = PStr base_locale
          then translated s = total s \<and> missing s = 0 \<and> percentage s = lit_100 ops
          else translated s =
                 int (length (filter
                   (\<lambda>k. \<exists>v. map_of (get_translations data) k = Some (PStr v) \<and> py_strip v \<noteq> [])
                   (map fst (get_translations base_data)))) \<and>
               missing s = total s - translated s \<and>
               percentage s =
                 (if total s = 0 then lit_100 ops
                  else py_round ops (times_int ops (true_div ops (translated s) (total s)) 100) 1))))"
proof -
  from assms(3) have sel:
    "(case map_of yaml_dir (base_locale @ ''.yml'') of
        Some f \<Rightarrow> Some f
      | None \<Rightarrow> (case yaml_dir of [] \<Rightarrow> None | (name, f) # rest \<Rightarrow> Some f)) = Some base_file"
    by (auto split: list.splits)
  with assms(1) obtain base_data where
    base: "load_yaml_file base_file = Inr (Mapping base_data)" and
    loop: "coverage_loop ops base_locale (get_translations base_data) yaml_dir [] = Inr result"
    unfolding calculate_coverage_def by (auto split: sum.splits document.splits)
  have keys: "fst ` set result =
      {loc. \<exists>name f data. (name, f) \<in> set yaml_dir \<and> load_yaml_file f = Inr (Mapping data) \<and>
         get_locale data name = loc}"
    using coverage_loop_keys [OF loop] by simp
  have entries: "\<exists>name f data.
         (name, f) \<in> set yaml_dir \<and> load_yaml_file f = Inr (Mapping data) \<and>
         get_locale data name = loc \<and>
         total s = int (length (get_translations base_data)) \<and>
         (if loc = PStr base_locale
          then translated s = total s \<and> missing s = 0 \<and> percentage s = lit_100 ops
          else translated s =
                 int (length (filter
                   (\<lambda>k. \<exists>v. map_of (get_translations data) k = Some (PStr v) \<and> py_strip v \<noteq> [])
                   (map fst (get_translations base_data)))) \<and>
               missing s = total s - translated s \<and>
               percentage s =
                 (if total s = 0 then lit_100 ops
                  else py_round ops (times_int ops (true_div ops (translated s) (total s)) 100) 1))"
    if s: "map_of result loc = Some s" for loc s
  proof -
    from coverage_loop_entry [OF loop s] obtain name f data where
      f: "(name, f) \<in> set yaml_dir" "load_yaml_file f = Inr (Mapping data)"
         "get_locale data name = loc" and
      stats: "s = language_stats ops base_locale (get_translations base_data) loc (get_translations data)"
      by auto
    have "total s = int (length (get_translations base_data)) \<and>
         (if loc = PStr base_locale
          then translated s = total s \<and> missing s = 0 \<and> percentage s = lit_100 ops
          else translated s =
                 int (length (filter
                   (\<lambda>k. \<exists>v. map_of (get_translations data) k = Some (PStr v) \<and> py_strip v \<noteq> [])
                   (map fst (get_translations base_data)))) \<and>
               missing s = total s - translated s \<and>
               percentage s =
                 (if total s = 0 then lit_100 ops
                  else py_round ops (times_int ops (true_div ops (translated s) (total s)) 100) 1))"
      unfolding stats language_stats_eq using assms(2) by simp
    with f show ?thesis by blast
  qed
  from base keys entries show ?thesis by blast
qed

theorem coverage_formula_witness:
  "calculate_coverage exact_ops example_dir ''en'' =
     Inr [(PStr ''en'', \<lparr>total = 2, translated = 2, missing = 0, percentage = 100\<rparr>),
          (PStr ''de'', \<lparr>total = 2, translated = 1, missing = 1, percentage = 50\<rparr>)] \<and>
   py_round exact_ops (lit_100 exact_ops) 1 = lit_100 exact_ops \<and>
   map_of example_dir (''en'' @ ''.yml'') = Some (Parsed (Mapping example_en)) \<and>
   (\<exists>base_data.
    load_yaml_file (Parsed (Mapping example_en)) = Inr (Mapping base_data) \<and>
    fst ` set [(PStr ''en'', \<lparr>total = 2, translated = 2, missing = 0, percentage = 100\<rparr>),
          (PStr ''de'', \<lparr>total = 2, translated = 1, missing = 1, percentage = (50::rat)\<rparr>)] =
      {loc. \<exists>name f data. (name, f) \<in> set example_dir \<and> load_yaml_file f = Inr (Mapping data) \<and>
         get_locale data name = loc} \<and>
    (\<forall>loc s. map_of [(PStr ''en'', \<lparr>total = 2, translated = 2, missing = 0, percentage = 100\<rparr>),
          (PStr ''de'', \<lparr>total = 2, translated = 1, missing = 1, percentage = 50\<rparr>)] loc = Some s \<longrightarrow>
      (\<exists>name f data.
         (name, f) \<in> set example_dir \<and> load_yaml_file f = Inr (Mapping data) \<and>
         get_locale data name = loc \<and>
         total s = int (length (get_translations base_data)) \<and>
         (if loc = PStr ''en''
          then translated s = total s \<and> missing s = 0 \<and> percentage s = lit_100 exact_ops
          else translated s =
                 int (length (filter
                   (\<lambda>k. \<exists>v. map_of (get_translations data) k = Some (PStr v) \<and> py_strip v \<noteq> [])
                   (map fst (get_translations base_data)))) \<and>
               missing s = total s - translated s \<and>
               percentage s =
                 (if total s = 0 then lit_100 exact_ops
                  else py_round exact_ops
                         (times_int exact_ops (true_div exact_ops (translated s) (total s)) 100) 1)))))"
proof -
  have c: "calculate_coverage exact_ops example_dir ''en'' =
     Inr [(PStr ''en'', \<lparr>total = 2, translated = 2, missing = 0, percentage = 100\<rparr>),
          (PStr ''de'', \<lparr>total = 2, translated = 1, missing = 1, percentage = 50\<rparr>)]"
    by (simp add: calculate_coverage_def example_dir_def example_en_def example_de_def
        load_yaml_file_def get_locale_def get_translations_def exact_ops_def
        round_half_even_def language_stats_def py_strip_def py_isspace_def is_cont_def)
  have r: "py_round exact_ops (lit_100 exact_ops) 1 = lit_100 exact_ops"
    by (simp add: exact_ops_def round_half_even_def)
  have b: "map_of example_dir (''en'' @ ''.yml'') = Some (Parsed (Mapping example_en))"
    by (simp add: example_dir_def)
  from coverage_formula [OF c r disjI1 [OF b]] c r b show ?thesis
    by (intro conjI)
qed

section \<open>Obsolete keys\<close>

text \<open>
  C6. Obsolete characterization. When \<open>find_obsolete_keys\<close> returns, a key is in its
  result iff it is a key of the catalog in the file named after the base locale and is
  in neither the strings extracted from the markup nor, when the C++ scan is supplied,
  the strings it found. No other catalog of the directory is consulted, so a key held
  only by other catalogs is not reported; and the result is disjoint from the used
  strings.
\<close>

theorem obsolete_characterization:
  assumes "find_obsolete_keys xml_strings cpp_strings yaml_dir base_locale = Inr obsolete"
  shows "(key \<in> obsolete \<longleftrightarrow>
            (\<exists>f data. map_of yaml_dir (base_locale @ ''.yml'') = Some f \<and>
               load_yaml_file f = Inr (Mapping data) \<and>
               key \<in> fst ` set (get_translations data)) \<and>
            key \<notin> xml_strings \<union> (case cpp_strings of None \<Rightarrow> {} | Some c \<Rightarrow> c)) \<and>
         obsolete \<inter> (xml_strings \<union> (case cpp_strings of None \<Rightarrow> {} | Some c \<Rightarrow> c)) = {}"
proof (cases "map_of yaml_dir (base_locale @ ''.yml'')")
  case None
  with assms show ?thesis by (simp add: find_obsolete_keys_def)
next
  case (Some f)
  with assms obtain data where data: "load_yaml_file f = Inr (Mapping data)"
    by (auto simp: find_obsolete_keys_def split: sum.splits document.splits)
  have used: "(case cpp_strings of None \<Rightarrow> xml_strings | Some c \<Rightarrow> xml_strings \<union> c) =
      xml_strings \<union> (case cpp_strings of None \<Rightarrow> {} | Some c \<Rightarrow> c)"
    by (simp split: option.splits)
  from assms Some data have
    "obsolete = fst ` set (get_translations data) -
       (xml_strings \<union> (case cpp_strings of None \<Rightarrow> {} | Some c \<Rightarrow> c))"
    unfolding find_obsolete_keys_def used by (auto simp: Let_def split: if_splits)
  with Some data show ?thesis by auto
qed

theorem obsolete_characterization_witness:
  "find_obsolete_keys {''A''} None example_dir ''en'' = Inr {''B''} \<and>
   (''B'' \<in> {''B''} \<longleftrightarrow>
      (\<exists>f data. map_of example_dir (''en'' @ ''.yml'') = Some f \<and>
         load_yaml_file f = Inr (Mapping data) \<and>
         ''B'' \<in> fst ` set (get_translations data)) \<and>
      ''B'' \<notin> {''A''} \<union> (case None of None \<Rightarrow> {} | Some c \<Rightarrow> c)) \<and>
   {''B''} \<inter> ({''A''} \<union> (case None of None \<Rightarrow> {} | Some c \<Rightarrow> c)) = {}"
proof -
  have r: "find_obsolete_keys {''A''} None example_dir ''en'' = Inr {''B''}"
    by (auto simp: find_obsolete_keys_def example_dir_def example_en_def load_yaml_file_def
        get_translations_def)
  from obsolete_characterization [OF r, of "''B''"] r show ?thesis
    by blast
qed

text \<open>
  C10. When the directory has no file named after the base locale, or that file holds a
  catalog whose translations entry is absent, null or an empty mapping,
  \<open>find_obsolete_keys\<close> returns the empty set, whatever the used strings are.
\<close>

theorem obsolete_empty_without_base_keys:
  "(map_of yaml_dir (base_locale @ ''.yml'') = None \<longrightarrow>
      find_obsolete_keys xml_strings cpp_strings yaml_dir base_locale = Inr {}) \<and>
   (map_of yaml_dir (base_locale @ ''.yml'') = Some f \<and>
    load_yaml_file f = Inr (Mapping data) \<and>
    (translations_entry data = TAbsent \<or> translations_entry data = TNull \<or>
     translations_entry data = TDict []) \<longrightarrow>
      find_obsolete_keys xml_strings cpp_strings yaml_dir base_locale = Inr {})"
  by (auto simp: find_obsolete_keys_def get_translations_def)

theorem obsolete_empty_without_base_keys_witness:
  "map_of [(''de.yml'', Parsed (Mapping example_de))] (''en'' @ ''.yml'') = None \<and>
   find_obsolete_keys {} None [(''de.yml'', Parsed (Mapping example_de))] ''en'' = Inr {} \<and>
   map_of [(''en.yml'', Parsed (Mapping (example_en\<lparr>translations_entry := TNull\<rparr>)))] (''en'' @ ''.yml'') =
     Some (Parsed (Mapping (example_en\<lparr>translations_entry := TNull\<rparr>))) \<and>
   load_yaml_file (Parsed (Mapping (example_en\<lparr>translations_entry := TNull\<rparr>))) =
     Inr (Mapping (example_en\<lparr>translations_entry := TNull\<rparr>)) \<and>
   translations_entry (example_en\<lparr>translations_entry := TNull\<rparr>) = TNull \<and>
   find_obsolete_keys {} None
     [(''en.yml'', Parsed (Mapping (example_en\<lparr>translations_entry := TNull\<rparr>)))] ''en'' = Inr {}"
proof -
  have a: "map_of [(''de.yml'', Parsed (Mapping example_de))] (''en'' @ ''.yml'') = None"
    by simp
  have b: "map_of [(''en.yml'', Parsed (Mapping (example_en\<lparr>translations_entry := TNull\<rparr>)))] (''en'' @ ''.yml'') =
     Some (Parsed (Mapping (example_en\<lparr>translations_entry := TNull\<rparr>)))"
    "load_yaml_file (Parsed (Mapping (example_en\<lparr>translations_entry := TNull\<rparr>))) =
     Inr (Mapping (example_en\<lparr>translations_entry := TNull\<rparr>))"
    "translations_entry (example_en\<lparr>translations_entry := TNull\<rparr>) = TNull"
    by (simp_all add: load_yaml_file_def)
  from obsolete_empty_without_base_keys
         [where yaml_dir = "[(''de.yml'', Parsed (Mapping example_de))]" and base_locale = "''en''"
            and xml_strings = "{}" and cpp_strings = None]
       obsolete_empty_without_base_keys
         [where yaml_dir = "[(''en.yml'', Parsed (Mapping (example_en\<lparr>translations_entry := TNull\<rparr>)))]"
            and base_locale = "''en''"
            and f = "Parsed (Mapping (example_en\<lparr>translations_entry := TNull\<rparr>))"
            and data = "example_en\<lparr>translations_entry := TNull\<rparr>"
            and xml_strings = "{}" and cpp_strings = None]
       a b
  show ?thesis by blast
qed

section \<open>Marking obsolete keys\<close>

lemma mark_keys_fst_indep:
  "fst (mark_keys ks t m n) = fst (mark_keys ks t m' n')"
proof (induction ks arbitrary: t m n m' n')
  case Nil
  then show ?case by simp
next
  case (Cons key ks)
  show ?case
  proof (cases "map_of t key")
    case None
    then show ?thesis using Cons.IH [of t m n m' n'] by simp
  next
    case (Some v)
    show ?thesis
    proof (cases "prefix deprecated_marker (py_str v)")
      case True
      with Some show ?thesis using Cons.IH [of t m n m' n'] by simp
    next
      case False
      with Some show ?thesis
        using Cons.IH [of "AList.update key (PStr (deprecated_marker @ '' '' @ py_str v)) t" True "n + 1" True "n' + 1"]
        by simp
    qed
  qed
qed

lemma marked_is_marked [simp]: "prefix deprecated_marker (deprecated_marker @ s)"
  by (rule prefixI) simp

lemma mark_keys_map_of:
  "map_of (fst (mark_keys ks t m n)) k =
   map_option (\<lambda>v. if k \<in> set ks \<and> \<not> prefix deprecated_marker (py_str v)
                    then PStr (deprecated_marker @ '' '' @ py_str v) else v) (map_of t k)"
proof (induction ks arbitrary: t m n)
  case Nil
  then show ?case by (simp add: option.map_ident)
next
  case (Cons key ks)
  show ?case
  proof (cases "map_of t key")
    case None
    then show ?thesis using Cons.IH [of t m n] by (cases "k = key") auto
  next
    case (Some v)
    show ?thesis
    proof (cases "prefix deprecated_marker (py_str v)")
      case True
      with Some show ?thesis using Cons.IH [of t m n] by (cases "k = key") auto
    next
      case False
      let ?t = "AList.update key (PStr (deprecated_marker @ '' '' @ py_str v)) t"
      have upd: "map_of ?t k = (if k = key then Some (PStr (deprecated_marker @ '' '' @ py_str v)) else map_of t k)"
        by (simp add: update_conv')
      from False Some have "mark_keys (key # ks) t m n = mark_keys ks ?t True (n + 1)" by simp
      then show ?thesis
        using Cons.IH [of ?t True "n + 1"] Some False
        by (cases "k = key") (auto simp: update_conv' intro!: option.map_cong)
    qed
  qed
qed

lemma mark_keys_count:
  "snd (snd (mark_keys ks t m n)) =
   n + int (card {k \<in> set ks. \<exists>v. map_of t k = Some v \<and> \<not> prefix deprecated_marker (py_str v)})"
proof (induction ks arbitrary: t m n)
  case Nil
  then show ?case by simp
next
  case (Cons key ks)
  let ?U = "\<lambda>ks t. {k \<in> set ks. \<exists>v. map_of t k = Some v \<and> \<not> prefix deprecated_marker (py_str v)}"
  show ?case
  proof (cases "\<exists>v. map_of t key = Some v \<and> \<not> prefix deprecated_marker (py_str v)")
    case False
    then have "?U (key # ks) t = ?U ks t" by auto
    moreover from False have "mark_keys (key # ks) t m n = mark_keys ks t m n"
      by (auto split: option.splits)
    ultimately show ?thesis using Cons.IH [of t m n] by simp
  next
    case True
    then obtain v where v: "map_of t key = Some v" "\<not> prefix deprecated_marker (py_str v)" by blast
    let ?t = "AList.update key (PStr (deprecated_marker @ '' '' @ py_str v)) t"
    have upd: "\<And>k. map_of ?t k = (if k = key then Some (PStr (deprecated_marker @ '' '' @ py_str v)) else map_of t k)"
      by (simp add: update_conv')
    have "?U (key # ks) t = insert key (?U ks ?t)"
      using v by (auto simp: update_conv' split: if_splits)
    moreover have "key \<notin> ?U ks ?t" by (simp add: update_conv')
    moreover have "finite (?U ks ?t)" by simp
    ultimately have "card (?U (key # ks) t) = Suc (card (?U ks ?t))" by simp
    moreover from v have "mark_keys (key # ks) t m n = mark_keys ks ?t True (n + 1)" by simp
    ultimately show ?thesis using Cons.IH [of ?t True "n + 1"] by simp
  qed
qed

lemma mark_keys_modified:
  "fst (snd (mark_keys ks t m n)) \<longleftrightarrow>
   m \<or> (\<exists>k\<in>set ks. \<exists>v. map_of t k = Some v \<and> \<not> prefix deprecated_marker (py_str v))"
proof (induction ks arbitrary: t m n)
  case Nil
  then show ?case by simp
next
  case (Cons key ks)
  show ?case
  proof (cases "\<exists>v. map_of t key = Some v \<and> \<not> prefix deprecated_marker (py_str v)")
    case False
    then have "mark_keys (key # ks) t m n = mark_keys ks t m n"
      by (auto split: option.splits)
    with False show ?thesis using Cons.IH [of t m n] by auto
  next
    case True
    then obtain v where v: "map_of t key = Some v" "\<not> prefix deprecated_marker (py_str v)" by blast
    let ?t = "AList.update key (PStr (deprecated_marker @ '' '' @ py_str v)) t"
    from v have "mark_keys (key # ks) t m n = mark_keys ks ?t True (n + 1)" by simp
    with True show ?thesis using Cons.IH [of ?t True "n + 1"] by auto
  qed
qed


lemma mark_loop_Cons:
  "mark_loop reread ks dry ((name, f) # rest) n =
    (case load_yaml_file f of
       Inl e \<Rightarrow> raised ((name, f) # rest) e
     | Inr (Mapping data) \<Rightarrow>
         (let rest' = mark_loop reread ks dry rest
                (n + int (card {k \<in> set ks. \<exists>v. map_of (get_translations data) k = Some v \<and>
                                  \<not> prefix deprecated_marker (py_str v)}))
          in if (\<exists>k\<in>set ks. \<exists>v. map_of (get_translations data) k = Some v \<and>
                    \<not> prefix deprecated_marker (py_str v)) \<and> \<not> dry
             then written reread name
                    (data\<lparr>translations_entry :=
                       TDict (fst (mark_keys ks (get_translations data) False 0))\<rparr>) rest'
             else visited name f rest')
     | Inr (Scalar v) \<Rightarrow> raised ((name, f) # rest) AttributeError
     | Inr (Sequence xs) \<Rightarrow> raised ((name, f) # rest) AttributeError)"
proof (cases "load_yaml_file f")
  case (Inl e)
  then show ?thesis by simp
next
  case (Inr doc)
  show ?thesis
  proof (cases doc)
    case (Mapping data)
    show ?thesis
    proof (cases "get_translations data = []")
      case True
      then show ?thesis by (simp add: Inr Mapping)
    next
      case False
      obtain t m n' where tm: "mark_keys ks (get_translations data) False n = (t, m, n')"
        by (cases "mark_keys ks (get_translations data) False n")
      have t: "t = fst (mark_keys ks (get_translations data) False 0)"
        using mark_keys_fst_indep [of ks "get_translations data" False n False 0] tm by simp
      have m: "m \<longleftrightarrow> (\<exists>k\<in>set ks. \<exists>v. map_of (get_translations data) k = Some v \<and>
                  \<not> prefix deprecated_marker (py_str v))"
        using mark_keys_modified [of ks "get_translations data" False n] tm by simp
      have n': "n' = n + int (card {k \<in> set ks. \<exists>v. map_of (get_translations data) k = Some v \<and>
                                \<not> prefix deprecated_marker (py_str v)})"
        using mark_keys_count [of ks "get_translations data" False n] tm by simp
      show ?thesis
      proof (cases "\<exists>k\<in>set ks. \<exists>v. map_of (get_translations data) k = Some v \<and>
                  \<not> prefix deprecated_marker (py_str v)")
        case True
        with m have "m" by simp
        with True False show ?thesis
          unfolding mark_loop.simps Inr Mapping
          by (auto simp: tm t [symmetric] n' [symmetric] Let_def)
      next
        case nex: False
        with m have "\<not> m" by simp
        with nex False show ?thesis
          unfolding mark_loop.simps Inr Mapping
          by (auto simp: tm n' [symmetric] Let_def)
      qed
    qed
  qed (simp_all add: Inr)
qed

lemma mark_loop_count:
  "returned (mark_loop reread ks dry d n) = Inr res \<Longrightarrow>
   res = n + (\<Sum>(name, f)\<leftarrow>d.
     int (card {k \<in> set ks. \<exists>data v. load_yaml_file f = Inr (Mapping data) \<and>
                  map_of (get_translations data) k = Some v \<and>
                  \<not> prefix deprecated_marker (py_str v)}))"
proof (induction d arbitrary: n)
  case Nil
  then show ?case by simp
next
  case (Cons p d)
  obtain name f where p: "p = (name, f)" by (cases p)
  from Cons.prems obtain data where data: "load_yaml_file f = Inr (Mapping data)"
    unfolding p mark_loop_Cons by (auto split: sum.splits document.splits)
  let ?c = "int (card {k \<in> set ks. \<exists>v. map_of (get_translations data) k = Some v \<and>
                                \<not> prefix deprecated_marker (py_str v)})"
  from Cons.prems have "returned (mark_loop reread ks dry d (n + ?c)) = Inr res"
    unfolding p mark_loop_Cons by (simp add: data Let_def split: if_splits)
  from Cons.IH [OF this] show ?case
    unfolding p by (simp add: data)
qed

lemma mark_loop_length: "length (dir_after (mark_loop reread ks dry d n)) = length d"
proof (induction d arbitrary: n dry)
  case Nil
  then show ?case by simp
next
  case (Cons p d)
  obtain name f where p: "p = (name, f)" by (cases p)
  show ?case
    unfolding p mark_loop_Cons
    by (simp add: Cons.IH Let_def split: sum.splits document.splits)
qed

lemma mark_loop_success_nth:
  assumes "returned (mark_loop reread ks False d n) = Inr res" and "i < length d" and "d ! i = (name, f)"
  shows "\<exists>data. load_yaml_file f = Inr (Mapping data) \<and>
     (if \<exists>k\<in>set ks. \<exists>v. map_of (get_translations data) k = Some v \<and>
                  \<not> prefix deprecated_marker (py_str v)
      then dir_after (mark_loop reread ks False d n) ! i =
             (name, save_yaml_file reread (data\<lparr>translations_entry :=
                TDict (fst (mark_keys ks (get_translations data) False 0))\<rparr>)) \<and>
           (name, data\<lparr>translations_entry :=
                TDict (fst (mark_keys ks (get_translations data) False 0))\<rparr>)
             \<in> set (saved (mark_loop reread ks False d n))
      else dir_after (mark_loop reread ks False d n) ! i = (name, f))"
  using assms
proof (induction d arbitrary: i n)
  case Nil
  then show ?case by simp
next
  case (Cons p d)
  obtain name0 f0 where p: "p = (name0, f0)" by (cases p)
  from Cons.prems(1) obtain data0 where data0: "load_yaml_file f0 = Inr (Mapping data0)"
    unfolding p mark_loop_Cons by (auto split: sum.splits document.splits)
  let ?c = "int (card {k \<in> set ks. \<exists>v. map_of (get_translations data0) k = Some v \<and>
                                \<not> prefix deprecated_marker (py_str v)})"
  let ?rest = "mark_loop reread ks False d (n + ?c)"
  let ?data0 = "data0\<lparr>translations_entry :=
                TDict (fst (mark_keys ks (get_translations data0) False 0))\<rparr>"
  have step: "mark_loop reread ks False (p # d) n =
      (if \<exists>k\<in>set ks. \<exists>v. map_of (get_translations data0) k = Some v \<and>
                  \<not> prefix deprecated_marker (py_str v)
       then written reread name0 ?data0 ?rest else visited name0 f0 ?rest)"
    unfolding p mark_loop_Cons by (simp add: data0 Let_def)
  from Cons.prems(1) have ret: "returned ?rest = Inr res"
    unfolding step by (simp split: if_splits)
  show ?case
  proof (cases i)
    case 0
    with Cons.prems p have eq: "name0 = name" "f0 = f" by simp_all
    show ?thesis
      unfolding step 0 using data0 eq
      by (cases "\<exists>k\<in>set ks. \<exists>v. map_of (get_translations data0) k = Some v \<and>
                  \<not> prefix deprecated_marker (py_str v)") auto
  next
    case (Suc j)
    with Cons.prems have j: "j < length d" "d ! j = (name, f)" by simp_all
    from Cons.IH [OF ret j] obtain data where
      data: "load_yaml_file f = Inr (Mapping data)" and
      ih: "if \<exists>k\<in>set ks. \<exists>v. map_of (get_translations data) k = Some v \<and>
                  \<not> prefix deprecated_marker (py_str v)
      then dir_after ?rest ! j =
             (name, save_yaml_file reread (data\<lparr>translations_entry :=
                TDict (fst (mark_keys ks (get_translations data) False 0))\<rparr>)) \<and>
           (name, data\<lparr>translations_entry :=
                TDict (fst (mark_keys ks (get_translations data) False 0))\<rparr>)
             \<in> set (saved ?rest)
      else dir_after ?rest ! j = (name, f)"
      by blast
    have nth: "dir_after (mark_loop reread ks False (p # d) n) ! Suc j = dir_after ?rest ! j"
      and sub: "set (saved ?rest) \<subseteq> set (saved (mark_loop reread ks False (p # d) n))"
      unfolding step by auto
    show ?thesis
      unfolding Suc nth using data ih sub
      by (cases "\<exists>k\<in>set ks. \<exists>v. map_of (get_translations data) k = Some v \<and>
                  \<not> prefix deprecated_marker (py_str v)") auto
  qed
qed

lemma mark_loop_all_marked:
  assumes "\<And>name f. (name, f) \<in> set d \<Longrightarrow>
            \<exists>data. load_yaml_file f = Inr (Mapping data) \<and>
              \<not> (\<exists>k\<in>set ks. \<exists>v. map_of (get_translations data) k = Some v \<and>
                    \<not> prefix deprecated_marker (py_str v))"
  shows "mark_loop reread ks dry d n = \<lparr>dir_after = d, saved = [], returned = Inr n\<rparr>"
  using assms
proof (induction d arbitrary: n)
  case Nil
  then show ?case by simp
next
  case (Cons p d)
  obtain name f where p: "p = (name, f)" by (cases p)
  from Cons.prems [of name f] obtain data where
    data: "load_yaml_file f = Inr (Mapping data)"
      "\<not> (\<exists>k\<in>set ks. \<exists>v. map_of (get_translations data) k = Some v \<and>
                    \<not> prefix deprecated_marker (py_str v))"
    by (auto simp: p)
  from data(2) have empty: "{k \<in> set ks. \<exists>v. map_of (get_translations data) k = Some v \<and>
                                \<not> prefix deprecated_marker (py_str v)} = {}"
    by auto
  have rest: "mark_loop reread ks dry d n = \<lparr>dir_after = d, saved = [], returned = Inr n\<rparr>"
    using Cons.prems by (intro Cons.IH) auto
  have "mark_loop reread ks dry ((name, f) # d) n =
      visited name f (mark_loop reread ks dry d n)"
    unfolding mark_loop_Cons using data(2) by (auto simp: data(1) empty Let_def)
  then show ?case
    unfolding p by (simp add: rest visited_def)
qed

lemma mark_keys_all_marked:
  "\<not> (\<exists>k\<in>set ks. \<exists>v. map_of (fst (mark_keys ks t m n)) k = Some v \<and>
         \<not> prefix deprecated_marker (py_str v))"
  by (auto simp: mark_keys_map_of split: if_splits)

text \<open>
  C7, as amended. Let a run of \<open>mark_obsolete_keys\<close> that writes (no dry run) return
  \<open>marked\<close>, whatever the YAML library. Then
  (1) \<open>marked\<close> is the number of (catalog, key) pairs newly marked: summed over the files,
  the number of obsolete keys that the catalog holds with a value that does not start
  with the marker \<open>[DEPRECATED]\<close>;
  (2) a catalog that holds such a key is handed to \<open>save_yaml_file\<close> with the value of
  each such key replaced by the marker, a space and the old value, and with every other
  entry (a key that is not obsolete, or whose value already starts with the marker) as
  it was, no key being added or removed; any other catalog file is left as it is;
  (3) when the library re-reads every catalog that the run saved with the keys and
  values it was saved with, a second run on the resulting directory, dry or not, returns
  0, saves no file and leaves the directory as it is, so no value is prefixed twice.
\<close>

theorem mark_idempotent:
  assumes "returned (mark_obsolete_keys reread yaml_dir obsolete_keys False) = Inr marked"
  shows
    "marked =
       (\<Sum>(name, f)\<leftarrow>yaml_dir.
          int (card {k \<in> set obsolete_keys. \<exists>data v. load_yaml_file f = Inr (Mapping data) \<and>
                       map_of (get_translations data) k = Some v \<and>
                       \<not> prefix deprecated_marker (py_str v)})) \<and>
     (\<forall>i name f data.
        i < length yaml_dir \<and> yaml_dir ! i = (name, f) \<and> load_yaml_file f = Inr (Mapping data) \<longrightarrow>
        (if \<exists>k\<in>set obsolete_keys. \<exists>v. map_of (get_translations data) k = Some v \<and>
               \<not> prefix deprecated_marker (py_str v)
         then \<exists>data'.
           dir_after (mark_obsolete_keys reread yaml_dir obsolete_keys False) ! i =
             (name, save_yaml_file reread data') \<and>
           (name, data') \<in> set (saved (mark_obsolete_keys reread yaml_dir obsolete_keys False)) \<and>
           (\<forall>key. map_of (get_translations data') key =
              map_option
                (\<lambda>v. if key \<in> set obsolete_keys \<and> \<not> prefix deprecated_marker (py_str v)
                      then PStr (deprecated_marker @ '' '' @ py_str v) else v)
                (map_of (get_translations data) key))
         else dir_after (mark_obsolete_keys reread yaml_dir obsolete_keys False) ! i = (name, f))) \<and>
     ((\<forall>(name, data') \<in> set (saved (mark_obsolete_keys reread yaml_dir obsolete_keys False)).
         \<exists>data''. load_yaml_file (save_yaml_file reread data') = Inr (Mapping data'') \<and>
           map_of (get_translations data'') = map_of (get_translations data')) \<longrightarrow>
      mark_obsolete_keys reread (dir_after (mark_obsolete_keys reread yaml_dir obsolete_keys False))
          obsolete_keys dry_run =
        \<lparr>dir_after = dir_after (mark_obsolete_keys reread yaml_dir obsolete_keys False),
         saved = [], returned = Inr 0\<rparr>)"
proof (cases "obsolete_keys = []")
  case True
  with assms have "marked = 0" by (simp add: mark_obsolete_keys_def)
  with True show ?thesis
    by (auto simp: mark_obsolete_keys_def case_prod_unfold)
next
  case False
  let ?run = "mark_loop reread obsolete_keys False yaml_dir 0"
  let ?unmarked = "\<lambda>data. \<exists>k\<in>set obsolete_keys. \<exists>v. map_of (get_translations data) k = Some v \<and>
                  \<not> prefix deprecated_marker (py_str v)"
  let ?marked = "\<lambda>data. data\<lparr>translations_entry :=
                     TDict (fst (mark_keys obsolete_keys (get_translations data) False 0))\<rparr>"
  from False have run: "mark_obsolete_keys reread yaml_dir obsolete_keys False = ?run"
    by (simp add: mark_obsolete_keys_def)
  from assms have ret: "returned ?run = Inr marked" by (simp add: run)
  have count: "marked =
       (\<Sum>(name, f)\<leftarrow>yaml_dir.
          int (card {k \<in> set obsolete_keys. \<exists>data v. load_yaml_file f = Inr (Mapping data) \<and>
                       map_of (get_translations data) k = Some v \<and>
                       \<not> prefix deprecated_marker (py_str v)}))"
    using mark_loop_count [OF ret] by simp
  have after: "if ?unmarked data
      then dir_after ?run ! i = (name, save_yaml_file reread (?marked data)) \<and>
           (name, ?marked data) \<in> set (saved ?run)
      else dir_after ?run ! i = (name, f)"
    if i: "i < length yaml_dir" "yaml_dir ! i = (name, f)" "load_yaml_file f = Inr (Mapping data)"
    for i name f data
    using mark_loop_success_nth [OF ret i(1,2)] i(3) by auto
  have entry: "if ?unmarked data
         then \<exists>data'.
           dir_after ?run ! i = (name, save_yaml_file reread data') \<and>
           (name, data') \<in> set (saved ?run) \<and>
           (\<forall>key. map_of (get_translations data') key =
              map_option
                (\<lambda>v. if key \<in> set obsolete_keys \<and> \<not> prefix deprecated_marker (py_str v)
                      then PStr (deprecated_marker @ '' '' @ py_str v) else v)
                (map_of (get_translations data) key))
         else dir_after ?run ! i = (name, f)"
    if i: "i < length yaml_dir" "yaml_dir ! i = (name, f)" "load_yaml_file f = Inr (Mapping data)"
    for i name f data
  proof (cases "?unmarked data")
    case True
    with after [OF i] have "dir_after ?run ! i = (name, save_yaml_file reread (?marked data))"
      "(name, ?marked data) \<in> set (saved ?run)" by simp_all
    moreover have "\<forall>key. map_of (get_translations (?marked data)) key =
              map_option
                (\<lambda>v. if key \<in> set obsolete_keys \<and> \<not> prefix deprecated_marker (py_str v)
                      then PStr (deprecated_marker @ '' '' @ py_str v) else v)
                (map_of (get_translations data) key)"
      by (simp add: get_translations_saved mark_keys_map_of)
    ultimately have "\<exists>data'.
           dir_after ?run ! i = (name, save_yaml_file reread data') \<and>
           (name, data') \<in> set (saved ?run) \<and>
           (\<forall>key. map_of (get_translations data') key =
              map_option
                (\<lambda>v. if key \<in> set obsolete_keys \<and> \<not> prefix deprecated_marker (py_str v)
                      then PStr (deprecated_marker @ '' '' @ py_str v) else v)
                (map_of (get_translations data) key))"
      by blast
    with True show ?thesis by simp
  next
    case False
    with after [OF i] have "dir_after ?run ! i = (name, f)" by simp
    with False show ?thesis by auto
  qed
  have second: "mark_obsolete_keys reread (dir_after ?run) obsolete_keys dry_run =
       \<lparr>dir_after = dir_after ?run, saved = [], returned = Inr 0\<rparr>"
    if rr: "\<forall>(name, data') \<in> set (saved ?run).
         \<exists>data''. load_yaml_file (save_yaml_file reread data') = Inr (Mapping data'') \<and>
           map_of (get_translations data'') = map_of (get_translations data')"
  proof -
    have all_marked: "\<exists>data''. load_yaml_file f' = Inr (Mapping data'') \<and> \<not> ?unmarked data''"
      if "(name, f') \<in> set (dir_after ?run)" for name f'
    proof -
      from that obtain i where i: "i < length (dir_after ?run)" "dir_after ?run ! i = (name, f')"
        by (auto simp: in_set_conv_nth)
      then have len: "i < length yaml_dir" by (simp add: mark_loop_length)
      obtain name0 f where f: "yaml_dir ! i = (name0, f)" by (cases "yaml_dir ! i")
      from mark_loop_success_nth [OF ret len f] obtain data where
        data: "load_yaml_file f = Inr (Mapping data)" by blast
      show ?thesis
      proof (cases "?unmarked data")
        case True
        with after [OF len f data] i(2) have f': "f' = save_yaml_file reread (?marked data)"
          and sv: "(name0, ?marked data) \<in> set (saved ?run)" by simp_all
        from rr sv obtain data'' where
          l: "load_yaml_file (save_yaml_file reread (?marked data)) = Inr (Mapping data'')" and
          m: "map_of (get_translations data'') = map_of (get_translations (?marked data))"
          by blast
        have "\<not> ?unmarked data''"
          unfolding m get_translations_saved
          using mark_keys_all_marked [of obsolete_keys "get_translations data" False 0] .
        with l f' show ?thesis by blast
      next
        case False
        with after [OF len f data] i(2) have "f' = f" by simp
        with data False show ?thesis by blast
      qed
    qed
    show ?thesis
      using False mark_loop_all_marked [of "dir_after ?run" obsolete_keys reread dry_run 0] all_marked
      by (simp add: mark_obsolete_keys_def)
  qed
  from count entry second show ?thesis
    unfolding run by blast
qed

theorem mark_idempotent_witness:
  "returned (mark_obsolete_keys reread_as_saved example_dir [''B''] False) = Inr 2 \<and>
   saved (mark_obsolete_keys reread_as_saved example_dir [''B''] False) =
     [(''en.yml'', example_en\<lparr>translations_entry :=
         TDict [(''B'', PStr ''[DEPRECATED] B''), (''A'', PStr ''A'')]\<rparr>),
      (''de.yml'', example_de\<lparr>translations_entry :=
         TDict [(''A'', PStr ''A-de''), (''B'', PStr ''[DEPRECATED] '')]\<rparr>)] \<and>
   mark_obsolete_keys reread_as_saved
       (dir_after (mark_obsolete_keys reread_as_saved example_dir [''B''] False)) [''B''] False =
     \<lparr>dir_after = dir_after (mark_obsolete_keys reread_as_saved example_dir [''B''] False),
      saved = [], returned = Inr 0\<rparr>"
proof -
  have r: "returned (mark_obsolete_keys reread_as_saved example_dir [''B''] False) = Inr 2"
    by (simp add: mark_obsolete_keys_def example_dir_def example_en_def example_de_def
        load_yaml_file_def get_translations_def deprecated_marker_def visited_def written_def)
  have s: "saved (mark_obsolete_keys reread_as_saved example_dir [''B''] False) =
     [(''en.yml'', example_en\<lparr>translations_entry :=
         TDict [(''B'', PStr ''[DEPRECATED] B''), (''A'', PStr ''A'')]\<rparr>),
      (''de.yml'', example_de\<lparr>translations_entry :=
         TDict [(''A'', PStr ''A-de''), (''B'', PStr ''[DEPRECATED] '')]\<rparr>)]"
    by (simp add: mark_obsolete_keys_def example_dir_def example_en_def example_de_def
        load_yaml_file_def get_translations_def deprecated_marker_def visited_def written_def)
  have rr: "\<forall>(name, data') \<in> set (saved (mark_obsolete_keys reread_as_saved example_dir [''B''] False)).
         \<exists>data''. load_yaml_file (save_yaml_file reread_as_saved data') = Inr (Mapping data'') \<and>
           map_of (get_translations data'') = map_of (get_translations data')"
    unfolding s
    by (simp add: save_yaml_file_def reread_as_saved_def load_yaml_file_def example_en_def example_de_def)
  from mark_idempotent [OF r, where dry_run = False] rr
  have "mark_obsolete_keys reread_as_saved
       (dir_after (mark_obsolete_keys reread_as_saved example_dir [''B''] False)) [''B''] False =
     \<lparr>dir_after = dir_after (mark_obsolete_keys reread_as_saved example_dir [''B''] False),
      saved = [], returned = Inr 0\<rparr>"
    by blast
  with r s show ?thesis by (intro conjI)
qed

text \<open>
  C7, as stated, fails. With the PyYAML branch, which reads a saved U+0085 back as a
  space: a catalog holds the keys \<open>Save<U+0085>now\<close> and \<open>Old\<close>, and the obsolete keys are \<open>Old\<close>
  and \<open>Save now\<close>. The first run marks \<open>Old\<close> and saves the catalog, which re-reads with
  the key \<open>Save now\<close>; the second run finds that key unmarked, marks it and saves the
  file again.
\<close>

theorem mark_idempotent_counterexample:
  "returned (mark_obsolete_keys reread_pyyaml [(''de.yml'', Parsed (Mapping example_nel))]
       [''Old'', ''Save now''] False) = Inr 1 \<and>
   returned (mark_obsolete_keys reread_pyyaml
       (dir_after (mark_obsolete_keys reread_pyyaml [(''de.yml'', Parsed (Mapping example_nel))]
          [''Old'', ''Save now''] False))
       [''Old'', ''Save now''] False) = Inr 1 \<and>
   map fst (saved (mark_obsolete_keys reread_pyyaml
       (dir_after (mark_obsolete_keys reread_pyyaml [(''de.yml'', Parsed (Mapping example_nel))]
          [''Old'', ''Save now''] False))
       [''Old'', ''Save now''] False)) = [''de.yml'']"
  by (simp add: mark_obsolete_keys_def example_nel_def nel_key_def load_yaml_file_def
      get_translations_def deprecated_marker_def visited_def written_def save_yaml_file_def
      reread_pyyaml_def)

section \<open>Deleting obsolete keys\<close>











end
